theory Spec2Isabelle
  imports Main
begin

section \<open>Strings\<close>

text \<open>
  A JavaScript string is modelled as a \<^typ>\<open>string\<close>: one \<^typ>\<open>char\<close> per code unit,
  for text whose code units are below 256.  The regular expressions of \<^verbatim>\<open>whois.js\<close>
  name ASCII characters only; with the \<^verbatim>\<open>i\<close> flag a code unit matches an ASCII letter of
  the pattern exactly when it is that letter in either case.
\<close>

definition isDigit :: "char \<Rightarrow> bool" where
  \<comment> \<open>the class \<^verbatim>\<open>\d\<close>\<close>
  "isDigit c = (c \<in> set ''0123456789'')"

definition asciiLower :: "char \<Rightarrow> char" where
  "asciiLower c =
     (case map_of (zip ''ABCDEFGHIJKLMNOPQRSTUVWXYZ'' ''abcdefghijklmnopqrstuvwxyz'') c of
        Some l \<Rightarrow> l
      | None \<Rightarrow> c)"

definition isWhiteSpace :: "char \<Rightarrow> bool" where
  \<comment> \<open>what \<^verbatim>\<open>String.prototype.trim\<close> removes: TAB, LF, VT, FF, CR, SP, NBSP\<close>
  "isWhiteSpace c = (of_char c \<in> {9, 10, 11, 12, 13, 32, 160 :: nat})"

definition trim :: "string \<Rightarrow> string" where
  "trim s = rev (dropWhile isWhiteSpace (rev (dropWhile isWhiteSpace s)))"

definition truthy :: "string option \<Rightarrow> bool" where
  \<comment> \<open>a value that is a string, \<^verbatim>\<open>null\<close> or \<^verbatim>\<open>undefined\<close>, used as a condition\<close>
  "truthy v = (case v of None \<Rightarrow> False | Some s \<Rightarrow> s \<noteq> [])"

fun testAtStart :: "string \<Rightarrow> string \<Rightarrow> bool" where
  \<comment> \<open>\<^verbatim>\<open>/^pat/i.test(s)\<close> for a literal pattern\<close>
  "testAtStart [] s = True"
| "testAtStart (p # ps) [] = False"
| "testAtStart (p # ps) (c # cs) =
     (if asciiLower c = asciiLower p then testAtStart ps cs else False)"

fun test :: "string \<Rightarrow> string \<Rightarrow> bool" where
  \<comment> \<open>\<^verbatim>\<open>/pat/i.test(s)\<close> for a literal pattern\<close>
  "test pat [] = testAtStart pat []"
| "test pat (c # cs) = (if testAtStart pat (c # cs) then True else test pat cs)"

fun split :: "char \<Rightarrow> string \<Rightarrow> string list" where
  \<comment> \<open>\<^verbatim>\<open>s.split(sep)\<close> for a one-character separator: never the empty list\<close>
  "split sep [] = [[]]"
| "split sep (c # cs) =
     (if c = sep then [] # split sep cs
      else (case split sep cs of p # ps \<Rightarrow> (c # p) # ps | [] \<Rightarrow> [[c]]))"

section \<open>extractDate\<close>

fun dateAt :: "char \<Rightarrow> string \<Rightarrow> bool" where
  \<comment> \<open>the pattern \<^verbatim>\<open>\d{4}S\d{2}S\d{2}\<close> matches at the head of the string\<close>
  "dateAt sep (y1 # y2 # y3 # y4 # s1 # m1 # m2 # s2 # d1 # d2 # rest) =
     (isDigit y1 \<and> isDigit y2 \<and> isDigit y3 \<and> isDigit y4 \<and> s1 = sep \<and>
      isDigit m1 \<and> isDigit m2 \<and> s2 = sep \<and> isDigit d1 \<and> isDigit d2)"
| "dateAt sep s = False"

fun matchDate :: "char \<Rightarrow> string \<Rightarrow> string option" where
  \<comment> \<open>\<^verbatim>\<open>line.match(/(\d{4}S\d{2}S\d{2})/)\<close>: group 1 of the leftmost match\<close>
  "matchDate sep [] = None"
| "matchDate sep (c # cs) =
     (if dateAt sep (c # cs) then Some (take 10 (c # cs)) else matchDate sep cs)"

definition replaceSlashes :: "string \<Rightarrow> string" where
  \<comment> \<open>\<^verbatim>\<open>.replace(/\//g, '-')\<close>\<close>
  "replaceSlashes s = map (\<lambda>c. if c = CHR ''/'' then CHR ''-'' else c) s"

definition extractDate :: "string \<Rightarrow> string option" where
  "extractDate line =
     (case matchDate CHR ''-'' line of
        Some m \<Rightarrow> Some m
      | None \<Rightarrow>
          (case matchDate CHR ''/'' line of
             Some m \<Rightarrow> Some (replaceSlashes m)
           | None \<Rightarrow> None))"

section \<open>toDate\<close>

text \<open>
  A \<^verbatim>\<open>Date\<close> is its time value, the milliseconds since 1970-01-01T00:00:00Z;
  \<open>None\<close> is the invalid date, whose time value is \<^verbatim>\<open>NaN\<close>.

  \<^verbatim>\<open>new Date(str)\<close> belongs to the platform.  Node.js first reads the string in the
  ECMAScript date-time string format.  Its date-only form \<^verbatim>\<open>YYYY-MM-DD\<close> is accepted when
  the month is 01 to 12 and the day 01 to 31, the bounds the format gives; the time value
  is then \<^verbatim>\<open>MakeDate(MakeDay(year, month - 1, day), 0)\<close> in UTC, where a day past the end
  of the month counts on into the next month, as \<^verbatim>\<open>MakeDay\<close> does.  That much is
  computed here.  What the platform makes of any other string (its fallback reader, whose
  result depends on the engine and on the local time zone) is not computed: it is the
  parameter \<open>fallback\<close> of the model.
\<close>

type_synonym date_fallback = "string \<Rightarrow> int option"

definition noFallback :: date_fallback where
  \<comment> \<open>for evaluating the model where \<open>fallback\<close> is not consulted\<close>
  "noFallback s = None"

definition digitVal :: "char \<Rightarrow> nat" where
  "digitVal c = of_char c - 48"

definition decimal :: "string \<Rightarrow> nat" where
  "decimal s = foldl (\<lambda>n c. 10 * n + digitVal c) 0 s"

definition InLeapYear :: "int \<Rightarrow> bool" where
  "InLeapYear y = ((y mod 4 = 0 \<and> y mod 100 \<noteq> 0) \<or> y mod 400 = 0)"

definition DayFromYear :: "int \<Rightarrow> int" where
  "DayFromYear y =
     365 * (y - 1970) + (y - 1969) div 4 - (y - 1901) div 100 + (y - 1601) div 400"

definition monthStart :: "nat \<Rightarrow> int" where
  \<comment> \<open>the day of a common year on which month \<open>m\<close> (0 is January) begins\<close>
  "monthStart m = [0, 31, 59, 90, 120, 151, 181, 212, 243, 273, 304, 334] ! m"

definition MakeDay :: "int \<Rightarrow> nat \<Rightarrow> int \<Rightarrow> int" where
  \<comment> \<open>for a month \<open>m\<close> from 0 to 11\<close>
  "MakeDay y m dt =
     DayFromYear y + monthStart m + (if InLeapYear y \<and> 2 \<le> m then 1 else 0) + dt - 1"

definition msPerDay :: int where
  "msPerDay = 86400000"

definition DateParse :: "date_fallback \<Rightarrow> string \<Rightarrow> int option" where
  "DateParse fallback str =
     (if dateAt CHR ''-'' str \<and> length str = 10 then
        (let y = decimal (take 4 str); m = decimal (take 2 (drop 5 str));
             d = decimal (take 2 (drop 8 str))
         in if 1 \<le> m \<and> m \<le> 12 \<and> 1 \<le> d \<and> d \<le> 31
            then Some (MakeDay (int y) (m - 1) (int d) * msPerDay) else fallback str)
      else fallback str)"

definition toDate :: "date_fallback \<Rightarrow> string option \<Rightarrow> int option" where
  "toDate fallback str =
     (case str of
        None \<Rightarrow> None
      | Some s \<Rightarrow> if s = [] then None else DateParse fallback s)"

section \<open>parseWhoisOutput\<close>

record 'd whois_fields =
  registrantCountry :: "string option"
  creationDate :: "'d option"
  updatedDate :: "'d option"
  expiryDate :: "'d option"

definition countryValue :: "string \<Rightarrow> string option" where
  \<comment> \<open>\<^verbatim>\<open>parts[1]\<close> of \<^verbatim>\<open>line.split(':').map(p => p.trim())\<close>, when it is there\<close>
  "countryValue line =
     (case map trim (split CHR '':'' line) of
        p0 # p1 # ps \<Rightarrow> Some p1
      | _ \<Rightarrow> None)"

definition isCountryLine :: "string \<Rightarrow> bool" where
  "isCountryLine line = (test ''registrant country:'' line \<or> testAtStart ''country:'' line)"

definition isCreationLine :: "string \<Rightarrow> bool" where
  "isCreationLine line =
     (test ''created on:'' line \<or> test ''creation date:'' line \<or> test ''registered on:'' line)"

definition isUpdateLine :: "string \<Rightarrow> bool" where
  "isUpdateLine line =
     (test ''updated on:'' line \<or> test ''last updated on:'' line \<or> test ''updated date:'' line)"

definition isExpiryLine :: "string \<Rightarrow> bool" where
  "isExpiryLine line =
     (test ''expiration date:'' line \<or> test ''expires on:'' line \<or> test ''expiry date:'' line)"

definition scanLine :: "string whois_fields \<Rightarrow> string \<Rightarrow> string whois_fields" where
  \<comment> \<open>the body of the \<^verbatim>\<open>for\<close> loop, on the four variables of \<^verbatim>\<open>parseWhoisOutput\<close>\<close>
  "scanLine v line =
     (let v1 = (if isCountryLine line \<and> truthy (countryValue line)
                then v\<lparr>registrantCountry := countryValue line\<rparr> else v);
          v2 = (if isCreationLine line \<and> truthy (extractDate line)
                then v1\<lparr>creationDate := extractDate line\<rparr> else v1);
          v3 = (if isUpdateLine line \<and> truthy (extractDate line)
                then v2\<lparr>updatedDate := extractDate line\<rparr> else v2)
      in (if isExpiryLine line \<and> truthy (extractDate line)
          then v3\<lparr>expiryDate := extractDate line\<rparr> else v3))"

definition noFields :: "string whois_fields" where
  "noFields = \<lparr>registrantCountry = None, creationDate = None, updatedDate = None,
     expiryDate = None\<rparr>"

definition scanLines :: "string \<Rightarrow> string whois_fields" where
  "scanLines rawData = foldl scanLine noFields (map trim (split CHR 0x0A rawData))"

definition parseWhoisOutput :: "date_fallback \<Rightarrow> string \<Rightarrow> int whois_fields" where
  "parseWhoisOutput fallback rawData =
     (let v = scanLines rawData
      in \<lparr>registrantCountry = registrantCountry v,
          creationDate = toDate fallback (creationDate v),
          updatedDate = toDate fallback (updatedDate v),
          expiryDate = toDate fallback (expiryDate v)\<rparr>)"

section \<open>The host of a URL\<close>

text \<open>
  \<^verbatim>\<open>new URL(s).hostname\<close> belongs to the platform, which follows the URL Standard.
  It is modelled for the strings \<^verbatim>\<open>getCleanHostname\<close> passes, those that begin with
  \<^verbatim>\<open>http://\<close> or \<^verbatim>\<open>https://\<close> in any letter case: the parser's steps up to the host
  and the port (the path, query and fragment states that follow never fail), with
  \<open>None\<close> for the \<^verbatim>\<open>TypeError\<close> the constructor throws.  Two parts of host parsing are
  not computed here and are a parameter \<open>ext\<close> of the model: the IPv6 parser and
  serializer, for a host in square brackets, and Unicode's domain-to-ASCII processing
  (IDNA), for a domain that is not ASCII or has a label beginning with \<^verbatim>\<open>xn--\<close>.
  For every other ASCII domain that processing is ASCII lower-casing, which is computed.
\<close>

datatype host_form = IPv6Address string | IDNADomain string

type_synonym host_ext = "host_form \<Rightarrow> string option"

definition noExt :: host_ext where
  \<comment> \<open>for evaluating the model where \<open>ext\<close> is not consulted\<close>
  "noExt h = None"

definition isC0ControlOrSpace :: "char \<Rightarrow> bool" where
  "isC0ControlOrSpace c = (of_char c \<le> (32::nat))"

definition isTabOrNewline :: "char \<Rightarrow> bool" where
  "isTabOrNewline c = (of_char c \<in> {9, 10, 13 :: nat})"

definition parserInput :: "string \<Rightarrow> string" where
  \<comment> \<open>the parser first strips C0 controls and spaces at both ends, then drops every
     tab and newline\<close>
  "parserInput s =
     filter (\<lambda>c. \<not> isTabOrNewline c)
       (rev (dropWhile isC0ControlOrSpace (rev (dropWhile isC0ControlOrSpace s))))"

definition isHexDigit :: "char \<Rightarrow> bool" where
  "isHexDigit c = (c \<in> set ''0123456789abcdefABCDEF'')"

definition hexVal :: "char \<Rightarrow> nat" where
  "hexVal c =
     (if isDigit c then of_char c - 48
      else if c \<in> set ''abcdef'' then of_char c - 87
      else of_char c - 55)"

fun percentDecode :: "string \<Rightarrow> string" where
  "percentDecode (p # h # l # rest) =
     (if p = CHR ''%'' \<and> isHexDigit h \<and> isHexDigit l
      then char_of (16 * hexVal h + hexVal l) # percentDecode rest
      else p # percentDecode (h # l # rest))"
| "percentDecode s = s"

definition isForbiddenDomainCodePoint :: "char \<Rightarrow> bool" where
  \<comment> \<open>the forbidden host code points, the C0 controls, \<^verbatim>\<open>%\<close> and DEL\<close>
  "isForbiddenDomainCodePoint c =
     (of_char c \<le> (32::nat) \<or> of_char c = (127::nat) \<or> c = CHR 0x5C \<or>
      c \<in> set ''#/:<>?@[]^|%'')"

definition ipv4Number :: "string \<Rightarrow> nat option" where
  \<comment> \<open>the IPv4 number parser: decimal, \<^verbatim>\<open>0x\<close> hexadecimal or \<^verbatim>\<open>0\<close> octal\<close>
  "ipv4Number part =
     (if part = [] then None
      else if 2 \<le> length part \<and> (take 2 part = ''0x'' \<or> take 2 part = ''0X'') then
        (if list_all isHexDigit (drop 2 part)
         then Some (foldl (\<lambda>n c. 16 * n + hexVal c) 0 (drop 2 part)) else None)
      else if 2 \<le> length part \<and> hd part = CHR ''0'' then
        (if list_all (\<lambda>c. c \<in> set ''01234567'') (tl part)
         then Some (foldl (\<lambda>n c. 8 * n + digitVal c) 0 (tl part)) else None)
      else
        (if list_all isDigit part then Some (decimal part) else None))"

definition ipv4Parts :: "string \<Rightarrow> string list" where
  \<comment> \<open>the parts between the dots, without one empty part after a final dot\<close>
  "ipv4Parts s =
     (let parts = split CHR ''.'' s
      in if last parts = [] \<and> 1 < length parts then butlast parts else parts)"

definition endsInNumber :: "string \<Rightarrow> bool" where
  "endsInNumber s =
     (let parts = split CHR ''.'' s
      in if last parts = [] \<and> length parts = 1 then False
         else (let l = last (ipv4Parts s)
               in (l \<noteq> [] \<and> list_all isDigit l) \<or> ipv4Number l \<noteq> None))"

definition ipv4Address :: "nat list \<Rightarrow> nat option" where
  \<comment> \<open>the parts before the last are bytes, the last part fills the bytes that remain\<close>
  "ipv4Address numbers =
     (if numbers = [] then None
      else if list_ex (\<lambda>n. 255 < n) (butlast numbers) then None
      else if 256 ^ (5 - length numbers) \<le> last numbers then None
      else Some (last numbers +
                 sum_list (map (\<lambda>(i, n). n * 256 ^ (3 - i)) (enumerate 0 (butlast numbers)))))"

definition ipv4Parse :: "string \<Rightarrow> nat option" where
  "ipv4Parse s =
     (let parts = ipv4Parts s
      in if 4 < length parts then None
         else (case those (map ipv4Number parts) of
                 None \<Rightarrow> None
               | Some numbers \<Rightarrow> ipv4Address numbers))"

definition digitChar :: "nat \<Rightarrow> char" where
  \<comment> \<open>the last decimal digit of a number\<close>
  "digitChar n = ''0123456789'' ! (n mod 10)"

definition showByte :: "nat \<Rightarrow> string" where
  \<comment> \<open>a number below 256 in decimal\<close>
  "showByte n =
     (if n < 10 then [digitChar n]
      else if n < 100 then [digitChar (n div 10), digitChar n]
      else [digitChar (n div 100), digitChar (n div 10), digitChar n])"

definition ipv4Serialize :: "nat \<Rightarrow> string" where
  "ipv4Serialize a =
     showByte (a div 256 ^ 3 mod 256) @ ''.'' @ showByte (a div 256 ^ 2 mod 256) @ ''.'' @
     showByte (a div 256 mod 256) @ ''.'' @ showByte (a mod 256)"

definition isPlainDomain :: "string \<Rightarrow> bool" where
  \<comment> \<open>ASCII, and no label begins with \<^verbatim>\<open>xn--\<close>\<close>
  "isPlainDomain d =
     (list_all (\<lambda>c. of_char c < (128::nat)) d \<and>
      \<not> list_ex (testAtStart ''xn--'') (split CHR ''.'' d))"

definition domainToASCII :: "host_ext \<Rightarrow> string \<Rightarrow> string option" where
  "domainToASCII ext d =
     (if isPlainDomain d then Some (map asciiLower d) else ext (IDNADomain d))"

definition hostParse :: "host_ext \<Rightarrow> string \<Rightarrow> string option" where
  \<comment> \<open>the host parser for a host that is not opaque, then the host serializer\<close>
  "hostParse ext inp =
     (if take 1 inp = ''['' then
        (if last inp \<noteq> CHR '']'' then None
         else (case ext (IPv6Address (butlast (tl inp))) of
                 None \<Rightarrow> None
               | Some a \<Rightarrow> Some (''['' @ a @ '']'')))
      else
        (case domainToASCII ext (percentDecode inp) of
           None \<Rightarrow> None
         | Some asciiDomain \<Rightarrow>
             if asciiDomain = [] then None
             else if list_ex isForbiddenDomainCodePoint asciiDomain then None
             else if endsInNumber asciiDomain then
               (case ipv4Parse asciiDomain of
                  None \<Rightarrow> None
                | Some a \<Rightarrow> Some (ipv4Serialize a))
             else Some asciiDomain))"

definition isAsciiAlpha :: "char \<Rightarrow> bool" where
  "isAsciiAlpha c = (asciiLower c \<in> set ''abcdefghijklmnopqrstuvwxyz'')"

fun schemeState :: "string \<Rightarrow> (string \<times> string) option" where
  \<comment> \<open>the scheme state: the scheme in lower case and what follows its colon\<close>
  "schemeState [] = None"
| "schemeState (c # cs) =
     (if c = CHR '':'' then Some ([], cs)
      else if isAsciiAlpha c \<or> c \<in> set ''0123456789+-.'' then
        (case schemeState cs of
           None \<Rightarrow> None
         | Some (sch, rest) \<Rightarrow> Some (asciiLower c # sch, rest))
      else None)"

definition schemeEnd :: "string \<Rightarrow> (string \<times> string) option" where
  \<comment> \<open>the scheme start state: a scheme begins with a letter\<close>
  "schemeEnd s =
     (case s of
        [] \<Rightarrow> None
      | c # cs \<Rightarrow> if isAsciiAlpha c then schemeState s else None)"

definition isAuthorityEnd :: "char \<Rightarrow> bool" where
  \<comment> \<open>the authority of a special URL ends at one of these, or with the input\<close>
  "isAuthorityEnd c = (c \<in> set ''/?#'' \<or> c = CHR 0x5C)"

fun afterLastAt :: "string \<Rightarrow> string" where
  \<comment> \<open>the authority state: what precedes the last \<^verbatim>\<open>@\<close> is credentials\<close>
  "afterLastAt [] = []"
| "afterLastAt (c # cs) =
     (if CHR ''@'' \<in> set cs then afterLastAt cs
      else if c = CHR ''@'' then cs else c # cs)"

fun hostState :: "bool \<Rightarrow> string \<Rightarrow> string \<times> string option" where
  \<comment> \<open>the host state: the host ends at the first colon outside square brackets,
     and the port, if any, is what follows\<close>
  "hostState inside [] = ([], None)"
| "hostState inside (c # cs) =
     (if c = CHR '':'' \<and> \<not> inside then ([], Some cs)
      else (case hostState (if c = CHR ''['' then True
                            else if c = CHR '']'' then False else inside) cs of
              (h, port) \<Rightarrow> (c # h, port)))"

definition portOk :: "string option \<Rightarrow> bool" where
  \<comment> \<open>the port state: digits only, and a value of at most 65535\<close>
  "portOk port =
     (case port of
        None \<Rightarrow> True
      | Some ds \<Rightarrow> list_all isDigit ds \<and> decimal ds \<le> 65535)"

definition urlHostname :: "host_ext \<Rightarrow> string \<Rightarrow> string option" where
  "urlHostname ext s =
     (case schemeEnd (parserInput s) of
        None \<Rightarrow> None
      | Some (sch, rest) \<Rightarrow>
          if sch \<noteq> ''http'' \<and> sch \<noteq> ''https'' then None
          else
            (let authority =
                   takeWhile (\<lambda>c. \<not> isAuthorityEnd c)
                     (dropWhile (\<lambda>c. c = CHR ''/'' \<or> c = CHR 0x5C) rest)
             in if CHR ''@'' \<in> set authority \<and> afterLastAt authority = [] then None
                else (case hostState False (afterLastAt authority) of
                        (h, port) \<Rightarrow>
                          if h = [] then None
                          else (case hostParse ext h of
                                  None \<Rightarrow> None
                                | Some host \<Rightarrow> if portOk port then Some host else None))))"

section \<open>getCleanHostname\<close>

definition hasScheme :: "string \<Rightarrow> bool" where
  \<comment> \<open>\<^verbatim>\<open>/^https?:\/\//i.test(s)\<close>\<close>
  "hasScheme s = (testAtStart ''http://'' s \<or> testAtStart ''https://'' s)"

definition toLowerCase :: "string \<Rightarrow> string" where
  \<comment> \<open>on the host of a URL, which is ASCII\<close>
  "toLowerCase s = map asciiLower s"

definition getCleanHostname :: "host_ext \<Rightarrow> string \<Rightarrow> string option" where
  "getCleanHostname ext urlInput =
     (if urlInput = [] then None
      else
        (let t = trim urlInput;
             tempUrl = (if hasScheme t then t else ''http://'' @ t)
         in case urlHostname ext tempUrl of
              None \<Rightarrow> None
            | Some h \<Rightarrow>
                (let hostname = toLowerCase h
                 in if take 4 hostname = ''www.'' then Some (drop 4 hostname)
                    else Some hostname)))"

section \<open>The query loop\<close>

text \<open>
  The \<^verbatim>\<open>whois\<close> command is outside the program: \<open>whois\<close> below is what
  \<^verbatim>\<open>exec\<close> reports for a host name, an error with its message or the text the
  command wrote.  What the program prints is recorded as a list of \<open>printed\<close> items.
\<close>

datatype exec_result = ExecError string | Stdout string

datatype lookup_error = ExecutionFailed string | NoData

definition getWhoisRaw :: "(string \<Rightarrow> exec_result) \<Rightarrow> string \<Rightarrow> lookup_error + string" where
  "getWhoisRaw whois hostname =
     (case whois hostname of
        ExecError message \<Rightarrow> Inl (ExecutionFailed message)
      | Stdout out \<Rightarrow> if out = [] then Inl NoData else Inr out)"

definition getWhoisData ::
  "date_fallback \<Rightarrow> (string \<Rightarrow> exec_result) \<Rightarrow> string \<Rightarrow>
   lookup_error + string \<times> int whois_fields" where
  "getWhoisData fallback whois hostname =
     (case getWhoisRaw whois hostname of
        Inl e \<Rightarrow> Inl e
      | Inr raw \<Rightarrow> Inr (raw, parseWhoisOutput fallback raw))"

datatype loop_state = AwaitingInput | Done

datatype printed =
    Leaving
  | InvalidUrl
  | Consulting string
  | LookupFailed lookup_error
  | WhoisData string "int whois_fields"
  | AnotherUrl

definition iteration ::
  "host_ext \<Rightarrow> date_fallback \<Rightarrow> (string \<Rightarrow> exec_result) \<Rightarrow> string \<Rightarrow>
   loop_state \<times> printed list" where
  \<comment> \<open>one turn of the \<^verbatim>\<open>while\<close> loop of \<^verbatim>\<open>main\<close>, on the line the user typed\<close>
  "iteration ext fallback whois answer =
     (let urlInput = trim answer
      in if urlInput = [] then (Done, [Leaving])
         else
           (case getCleanHostname ext urlInput of
              None \<Rightarrow> (AwaitingInput, [InvalidUrl])
            | Some hostname \<Rightarrow>
                if hostname = [] then (AwaitingInput, [InvalidUrl])
                else
                  (AwaitingInput,
                   [Consulting hostname,
                    (case getWhoisData fallback whois hostname of
                       Inl e \<Rightarrow> LookupFailed e
                     | Inr (raw, parsed) \<Rightarrow> WhoisData raw parsed),
                    AnotherUrl])))"

fun mainLoop ::
  "host_ext \<Rightarrow> date_fallback \<Rightarrow> (string \<Rightarrow> exec_result) \<Rightarrow> string list \<Rightarrow>
   loop_state \<times> printed list" where
  \<comment> \<open>\<^verbatim>\<open>main\<close> on the lines typed so far\<close>
  "mainLoop ext fallback whois [] = (AwaitingInput, [])"
| "mainLoop ext fallback whois (answer # answers) =
     (case iteration ext fallback whois answer of
        (Done, out) \<Rightarrow> (Done, out)
      | (AwaitingInput, out) \<Rightarrow>
          (case mainLoop ext fallback whois answers of (st, out') \<Rightarrow> (st, out @ out')))"

section \<open>Notions of the specification\<close>

definition isDate :: "char \<Rightarrow> string \<Rightarrow> bool" where
  \<comment> \<open>four digits, separator, two digits, separator, two digits\<close>
  "isDate sep d =
     (length d = 10 \<and> list_all isDigit (take 4 d) \<and> d ! 4 = sep \<and>
      list_all isDigit (take 2 (drop 5 d)) \<and> d ! 7 = sep \<and>
      list_all isDigit (take 2 (drop 8 d)))"

definition dateOccurs :: "char \<Rightarrow> string \<Rightarrow> nat \<Rightarrow> bool" where
  \<comment> \<open>the line has a date in the layout with separator \<open>sep\<close> at position \<open>n\<close>\<close>
  "dateOccurs sep line n = isDate sep (take 10 (drop n line))"

definition splitLines :: "string \<Rightarrow> string list" where
  \<comment> \<open>the trimmed lines of a raw record, in order\<close>
  "splitLines rawData = map trim (split CHR 0x0A rawData)"

definition afterFirstColon :: "string \<Rightarrow> string" where
  "afterFirstColon line = drop 1 (dropWhile (\<lambda>c. c \<noteq> CHR '':'') line)"

definition isLowerCase :: "string \<Rightarrow> bool" where
  "isLowerCase s = list_all (\<lambda>c. c \<notin> set ''ABCDEFGHIJKLMNOPQRSTUVWXYZ'') s"

section \<open>Properties of extractDate\<close>

lemma dateAt_isDate: "dateAt sep s = isDate sep (take 10 s)"
  by (induction sep s rule: dateAt.induct) (auto simp: isDate_def)

lemma dateOccurs_Nil: "\<not> dateOccurs sep [] n"
  by (simp add: dateOccurs_def isDate_def)

lemma dateOccurs_0: "dateOccurs sep line 0 = dateAt sep line"
  by (simp add: dateOccurs_def dateAt_isDate)

lemma dateOccurs_Suc: "dateOccurs sep (c # cs) (Suc n) = dateOccurs sep cs n"
  by (simp add: dateOccurs_def)

lemma dateOccurs_Cons:
  "dateOccurs sep (c # cs) n = (case n of 0 \<Rightarrow> dateAt sep (c # cs) | Suc m \<Rightarrow> dateOccurs sep cs m)"
  by (cases n) (simp_all add: dateOccurs_0 dateOccurs_Suc)

lemma matchDate_None_iff: "matchDate sep line = None \<longleftrightarrow> (\<forall>n. \<not> dateOccurs sep line n)"
proof (induction line)
  case Nil
  show ?case by (simp add: dateOccurs_Nil)
next
  case (Cons c cs)
  show ?case
  proof (cases "dateAt sep (c # cs)")
    case True
    then have "dateOccurs sep (c # cs) 0" by (simp add: dateOccurs_0)
    with True show ?thesis by auto
  next
    case False
    have "(\<forall>n. \<not> dateOccurs sep (c # cs) n) \<longleftrightarrow> (\<forall>n. \<not> dateOccurs sep cs n)"
      using False by (auto simp: dateOccurs_Cons split: nat.splits)
    with False Cons.IH show ?thesis by simp
  qed
qed

lemma matchDate_leftmost:
  "dateOccurs sep line n \<Longrightarrow> (\<forall>k<n. \<not> dateOccurs sep line k) \<Longrightarrow>
   matchDate sep line = Some (take 10 (drop n line))"
proof (induction line arbitrary: n)
  case Nil
  then show ?case by (simp add: dateOccurs_Nil)
next
  case (Cons c cs)
  show ?case
  proof (cases n)
    case 0
    with Cons.prems show ?thesis by (simp add: dateOccurs_0)
  next
    case (Suc m)
    with Cons.prems have no0: "\<not> dateAt sep (c # cs)"
      using dateOccurs_0 by blast
    from Suc Cons.prems have occ: "dateOccurs sep cs m" by (simp add: dateOccurs_Suc)
    have "\<forall>k<m. \<not> dateOccurs sep cs k"
    proof (intro allI impI)
      fix k assume "k < m"
      then have "Suc k < n" using Suc by simp
      with Cons.prems have "\<not> dateOccurs sep (c # cs) (Suc k)" by blast
      then show "\<not> dateOccurs sep cs k" by (simp add: dateOccurs_Suc)
    qed
    with occ have "matchDate sep cs = Some (take 10 (drop m cs))" by (rule Cons.IH)
    with no0 Suc show ?thesis by simp
  qed
qed

lemma matchDate_Some_ex:
  "matchDate sep line = Some d \<Longrightarrow>
   \<exists>n. dateOccurs sep line n \<and> (\<forall>k<n. \<not> dateOccurs sep line k) \<and> d = take 10 (drop n line)"
proof (induction line)
  case Nil
  then show ?case by simp
next
  case (Cons c cs)
  show ?case
  proof (cases "dateAt sep (c # cs)")
    case True
    with Cons.prems have "d = take 10 (drop 0 (c # cs))" by auto
    moreover from True have "dateOccurs sep (c # cs) 0" by (simp add: dateOccurs_0)
    ultimately show ?thesis by blast
  next
    case False
    with Cons.prems have "matchDate sep cs = Some d" by simp
    then obtain n where n: "dateOccurs sep cs n" "\<forall>k<n. \<not> dateOccurs sep cs k"
      "d = take 10 (drop n cs)" using Cons.IH by blast
    have "\<forall>k<Suc n. \<not> dateOccurs sep (c # cs) k"
      using n(2) False by (auto simp: dateOccurs_Cons split: nat.splits)
    moreover have "dateOccurs sep (c # cs) (Suc n)" using n(1) by (simp add: dateOccurs_Suc)
    moreover have "d = take 10 (drop (Suc n) (c # cs))" using n(3) by simp
    ultimately show ?thesis by blast
  qed
qed

lemma isDate_elems:
  "isDate sep d \<longleftrightarrow>
   (\<exists>y1 y2 y3 y4 m1 m2 d1 d2. d = [y1, y2, y3, y4, sep, m1, m2, sep, d1, d2] \<and>
      isDigit y1 \<and> isDigit y2 \<and> isDigit y3 \<and> isDigit y4 \<and>
      isDigit m1 \<and> isDigit m2 \<and> isDigit d1 \<and> isDigit d2)"
proof
  assume a: "isDate sep d"
  then have "length d = 10" by (simp add: isDate_def)
  then obtain a0 a1 a2 a3 a4 a5 a6 a7 a8 a9 where d: "d = [a0, a1, a2, a3, a4, a5, a6, a7, a8, a9]"
    by (auto simp: length_Suc_conv numeral_eq_Suc)
  with a show "\<exists>y1 y2 y3 y4 m1 m2 d1 d2. d = [y1, y2, y3, y4, sep, m1, m2, sep, d1, d2] \<and>
      isDigit y1 \<and> isDigit y2 \<and> isDigit y3 \<and> isDigit y4 \<and>
      isDigit m1 \<and> isDigit m2 \<and> isDigit d1 \<and> isDigit d2"
    by (simp add: isDate_def)
next
  assume "\<exists>y1 y2 y3 y4 m1 m2 d1 d2. d = [y1, y2, y3, y4, sep, m1, m2, sep, d1, d2] \<and>
      isDigit y1 \<and> isDigit y2 \<and> isDigit y3 \<and> isDigit y4 \<and>
      isDigit m1 \<and> isDigit m2 \<and> isDigit d1 \<and> isDigit d2"
  then show "isDate sep d" by (auto simp: isDate_def)
qed

lemma isDigit_not_slash: "isDigit c \<Longrightarrow> c \<noteq> CHR ''/''"
  by (auto simp: isDigit_def)

lemma replaceSlashes_isDate:
  assumes "isDate CHR ''/'' d"
  shows "replaceSlashes d = d[4 := CHR ''-'', 7 := CHR ''-'']"
    and "isDate CHR ''-'' (replaceSlashes d)"
proof -
  from assms obtain y1 y2 y3 y4 m1 m2 d1 d2 where
    d: "d = [y1, y2, y3, y4, CHR ''/'', m1, m2, CHR ''/'', d1, d2]" and
    dg: "isDigit y1" "isDigit y2" "isDigit y3" "isDigit y4"
        "isDigit m1" "isDigit m2" "isDigit d1" "isDigit d2"
    unfolding isDate_elems by blast
  from dg have r: "replaceSlashes d = [y1, y2, y3, y4, CHR ''-'', m1, m2, CHR ''-'', d1, d2]"
    by (simp add: d replaceSlashes_def isDigit_not_slash)
  show "replaceSlashes d = d[4 := CHR ''-'', 7 := CHR ''-'']"
    by (simp add: r) (simp add: d)
  show "isDate CHR ''-'' (replaceSlashes d)"
    unfolding r isDate_elems using dg by blast
qed

lemma extractDate_form: "extractDate line = Some d \<Longrightarrow> isDate CHR ''-'' d"
proof -
  assume a: "extractDate line = Some d"
  show ?thesis
  proof (cases "matchDate CHR ''-'' line")
    case (Some m)
    with a have "d = m" by (simp add: extractDate_def)
    with Some show ?thesis using matchDate_Some_ex [of "CHR ''-''" line d]
      by (auto simp: dateOccurs_def)
  next
    case None
    with a obtain m where m: "matchDate CHR ''/'' line = Some m" "d = replaceSlashes m"
      by (auto simp: extractDate_def split: option.splits)
    from m(1) have "isDate CHR ''/'' m" using matchDate_Some_ex [of "CHR ''/''" line m]
      by (auto simp: dateOccurs_def)
    with m(2) show ?thesis by (simp add: replaceSlashes_isDate(2))
  qed
qed

lemma extractDate_truthy: "truthy (extractDate line) \<longleftrightarrow> extractDate line \<noteq> None"
proof (cases "extractDate line")
  case None
  then show ?thesis by (simp add: truthy_def)
next
  case (Some d)
  then have "length d = 10" using extractDate_form [of line d] by (simp add: isDate_def)
  with Some show ?thesis by (auto simp: truthy_def)
qed

lemmas date_eval = extractDate_def replaceSlashes_def isDigit_def

text \<open>
  Claim C1.  Whatever the line: when it has a date in the layout \<^verbatim>\<open>YYYY-MM-DD\<close>,
  \<open>extractDate\<close> returns such a substring of the line unchanged; when it has none but has
  a date in the layout \<^verbatim>\<open>YYYY/MM/DD\<close>, it returns such a substring with the two
  separators, at positions 4 and 7, replaced by \<^verbatim>\<open>-\<close>; when it has neither, it returns
  no date.  The two lines of the specification give \<^verbatim>\<open>2020-05-01\<close> and
  \<^verbatim>\<open>1997-09-15\<close>.
\<close>

theorem extractDate_layouts:
  "(dateOccurs CHR ''-'' line n \<longrightarrow>
      (\<exists>k. dateOccurs CHR ''-'' line k \<and> extractDate line = Some (take 10 (drop k line)))) \<and>
   ((\<forall>k. \<not> dateOccurs CHR ''-'' line k) \<and> dateOccurs CHR ''/'' line n \<longrightarrow>
      (\<exists>k. dateOccurs CHR ''/'' line k \<and>
           extractDate line = Some ((take 10 (drop k line))[4 := CHR ''-'', 7 := CHR ''-'']))) \<and>
   ((\<forall>k. \<not> dateOccurs CHR ''-'' line k \<and> \<not> dateOccurs CHR ''/'' line k) \<longrightarrow>
      extractDate line = None) \<and>
   extractDate ''Creation Date: 2020/05/01 ...'' = Some ''2020-05-01'' \<and>
   extractDate ''created on: 1997-09-15'' = Some ''1997-09-15''"
proof (intro conjI impI)
  assume "dateOccurs CHR ''-'' line n"
  then have "matchDate CHR ''-'' line \<noteq> None" by (auto simp: matchDate_None_iff)
  then obtain d where d: "matchDate CHR ''-'' line = Some d" by blast
  then obtain k where "dateOccurs CHR ''-'' line k" "d = take 10 (drop k line)"
    using matchDate_Some_ex by blast
  with d show "\<exists>k. dateOccurs CHR ''-'' line k \<and> extractDate line = Some (take 10 (drop k line))"
    by (auto simp: extractDate_def)
next
  assume a: "(\<forall>k. \<not> dateOccurs CHR ''-'' line k) \<and> dateOccurs CHR ''/'' line n"
  then have none: "matchDate CHR ''-'' line = None" by (simp add: matchDate_None_iff)
  from a have "matchDate CHR ''/'' line \<noteq> None" by (auto simp: matchDate_None_iff)
  then obtain d where d: "matchDate CHR ''/'' line = Some d" by blast
  then obtain k where k: "dateOccurs CHR ''/'' line k" "d = take 10 (drop k line)"
    using matchDate_Some_ex by blast
  then have "isDate CHR ''/'' d" by (simp add: dateOccurs_def)
  then have "replaceSlashes d = d[4 := CHR ''-'', 7 := CHR ''-'']"
    by (rule replaceSlashes_isDate(1))
  with none d k show "\<exists>k. dateOccurs CHR ''/'' line k \<and>
      extractDate line = Some ((take 10 (drop k line))[4 := CHR ''-'', 7 := CHR ''-''])"
    by (auto simp: extractDate_def)
next
  assume "\<forall>k. \<not> dateOccurs CHR ''-'' line k \<and> \<not> dateOccurs CHR ''/'' line k"
  then have "matchDate CHR ''-'' line = None" "matchDate CHR ''/'' line = None"
    by (simp_all add: matchDate_None_iff)
  then show "extractDate line = None" by (simp add: extractDate_def)
next
  show "extractDate ''Creation Date: 2020/05/01 ...'' = Some ''2020-05-01''"
    by (simp add: date_eval)
next
  show "extractDate ''created on: 1997-09-15'' = Some ''1997-09-15''"
    by (simp add: date_eval)
qed

lemma matchDate_eval_None: "matchDate sep line = None \<Longrightarrow> \<forall>k. \<not> dateOccurs sep line k"
  by (simp add: matchDate_None_iff)

theorem extractDate_layouts_witness:
  "dateOccurs CHR ''-'' ''created on: 1997-09-15'' 12 \<and>
   (\<exists>k. dateOccurs CHR ''-'' ''created on: 1997-09-15'' k \<and>
        extractDate ''created on: 1997-09-15'' = Some (take 10 (drop k ''created on: 1997-09-15''))) \<and>
   (\<forall>k. \<not> dateOccurs CHR ''-'' ''Creation Date: 2020/05/01'' k) \<and>
   dateOccurs CHR ''/'' ''Creation Date: 2020/05/01'' 15 \<and>
   (\<exists>k. dateOccurs CHR ''/'' ''Creation Date: 2020/05/01'' k \<and>
        extractDate ''Creation Date: 2020/05/01'' =
          Some ((take 10 (drop k ''Creation Date: 2020/05/01''))[4 := CHR ''-'', 7 := CHR ''-''])) \<and>
   (\<forall>k. \<not> dateOccurs CHR ''-'' ''Creation Date: May 1st'' k \<and>
        \<not> dateOccurs CHR ''/'' ''Creation Date: May 1st'' k) \<and>
   extractDate ''Creation Date: May 1st'' = None"
proof -
  have h1: "dateOccurs CHR ''-'' ''created on: 1997-09-15'' 12"
    by (simp add: dateOccurs_def isDate_def isDigit_def)
  have h2: "\<forall>k. \<not> dateOccurs CHR ''-'' ''Creation Date: 2020/05/01'' k"
    by (rule matchDate_eval_None) (simp add: isDigit_def)
  have h3: "dateOccurs CHR ''/'' ''Creation Date: 2020/05/01'' 15"
    by (simp add: dateOccurs_def isDate_def isDigit_def)
  have h4: "\<forall>k. \<not> dateOccurs CHR ''-'' ''Creation Date: May 1st'' k"
    by (rule matchDate_eval_None) (simp add: isDigit_def)
  have h5: "\<forall>k. \<not> dateOccurs CHR ''/'' ''Creation Date: May 1st'' k"
    by (rule matchDate_eval_None) (simp add: isDigit_def)
  from h4 h5 have h6: "\<forall>k. \<not> dateOccurs CHR ''-'' ''Creation Date: May 1st'' k \<and>
        \<not> dateOccurs CHR ''/'' ''Creation Date: May 1st'' k" by simp
  show ?thesis
    using h1 h2 h3 h6
      extractDate_layouts [of "''created on: 1997-09-15''" 12]
      extractDate_layouts [of "''Creation Date: 2020/05/01''" 15]
      extractDate_layouts [of "''Creation Date: May 1st''" 0]
    by blast
qed

text \<open>
  Claim C10.  When the line has a date in the layout \<^verbatim>\<open>YYYY-MM-DD\<close>, the leftmost one
  is returned, wherever the line has dates in the layout \<^verbatim>\<open>YYYY/MM/DD\<close>, also before
  it; only when the line has no date with hyphens is the leftmost date with slashes used.
\<close>

theorem extractDate_leftmost:
  "(dateOccurs CHR ''-'' line n \<and> (\<forall>k<n. \<not> dateOccurs CHR ''-'' line k) \<longrightarrow>
      extractDate line = Some (take 10 (drop n line))) \<and>
   ((\<forall>k. \<not> dateOccurs CHR ''-'' line k) \<and>
    dateOccurs CHR ''/'' line n \<and> (\<forall>k<n. \<not> dateOccurs CHR ''/'' line k) \<longrightarrow>
      extractDate line = Some (replaceSlashes (take 10 (drop n line)))) \<and>
   extractDate ''changed 2020/01/02, created 2021-03-04, expires 2022-05-06'' = Some ''2021-03-04'' \<and>
   extractDate ''changed 2020/01/02, expires 2022/05/06'' = Some ''2020-01-02''"
proof (intro conjI impI)
  assume "dateOccurs CHR ''-'' line n \<and> (\<forall>k<n. \<not> dateOccurs CHR ''-'' line k)"
  then have "matchDate CHR ''-'' line = Some (take 10 (drop n line))"
    by (simp add: matchDate_leftmost)
  then show "extractDate line = Some (take 10 (drop n line))"
    by (simp add: extractDate_def)
next
  assume a: "(\<forall>k. \<not> dateOccurs CHR ''-'' line k) \<and>
    dateOccurs CHR ''/'' line n \<and> (\<forall>k<n. \<not> dateOccurs CHR ''/'' line k)"
  then have "matchDate CHR ''-'' line = None" by (simp add: matchDate_None_iff)
  moreover from a have "matchDate CHR ''/'' line = Some (take 10 (drop n line))"
    by (simp add: matchDate_leftmost)
  ultimately show "extractDate line = Some (replaceSlashes (take 10 (drop n line)))"
    by (simp add: extractDate_def)
next
  show "extractDate ''changed 2020/01/02, created 2021-03-04, expires 2022-05-06'' = Some ''2021-03-04''"
    by (simp add: date_eval)
next
  show "extractDate ''changed 2020/01/02, expires 2022/05/06'' = Some ''2020-01-02''"
    by (simp add: date_eval)
qed


lemma no_date_before:
  assumes "matchDate sep (take (n + 9) line) = None"
  shows "\<forall>k<n. \<not> dateOccurs sep line k"
proof (intro allI impI)
  fix k assume k: "k < n"
  have "take 10 (drop k (take (n + 9) line)) = take 10 (drop k line)"
    using k by (simp add: drop_take min_def)
  then have "dateOccurs sep line k = dateOccurs sep (take (n + 9) line) k"
    by (simp add: dateOccurs_def)
  with assms show "\<not> dateOccurs sep line k" by (simp add: matchDate_None_iff)
qed

theorem extractDate_leftmost_witness:
  "dateOccurs CHR ''-'' ''changed 2020/01/02, created 2021-03-04, expires 2022-05-06'' 28 \<and>
   \<not> (\<exists>k<28. dateOccurs CHR ''-'' ''changed 2020/01/02, created 2021-03-04, expires 2022-05-06'' k) \<and>
   extractDate ''changed 2020/01/02, created 2021-03-04, expires 2022-05-06'' = Some ''2021-03-04'' \<and>
   (\<forall>k. \<not> dateOccurs CHR ''-'' ''changed 2020/01/02, expires 2022/05/06'' k) \<and>
   dateOccurs CHR ''/'' ''changed 2020/01/02, expires 2022/05/06'' 8 \<and>
   \<not> (\<exists>k<8. dateOccurs CHR ''/'' ''changed 2020/01/02, expires 2022/05/06'' k) \<and>
   extractDate ''changed 2020/01/02, expires 2022/05/06'' = Some (replaceSlashes ''2020/01/02'')"
proof -
  let ?a = "''changed 2020/01/02, created 2021-03-04, expires 2022-05-06''"
  let ?b = "''changed 2020/01/02, expires 2022/05/06''"
  have a1: "dateOccurs CHR ''-'' ?a 28"
    by (simp add: dateOccurs_def isDate_def isDigit_def)
  have a2: "\<forall>k<28. \<not> dateOccurs CHR ''-'' ?a k"
    by (rule no_date_before) (simp add: isDigit_def)
  have b1: "\<forall>k. \<not> dateOccurs CHR ''-'' ?b k"
    by (rule matchDate_eval_None) (simp add: isDigit_def)
  have b2: "dateOccurs CHR ''/'' ?b 8"
    by (simp add: dateOccurs_def isDate_def isDigit_def)
  have b3: "\<forall>k<8. \<not> dateOccurs CHR ''/'' ?b k"
    by (rule no_date_before) (simp add: isDigit_def)
  have ta: "take 10 (drop 28 ?a) = ''2021-03-04''" by simp
  have tb: "take 10 (drop 8 ?b) = ''2020/01/02''" by simp
  from a1 a2 have "extractDate ?a = Some (take 10 (drop 28 ?a))"
    using extractDate_leftmost [of ?a 28] by blast
  moreover from b1 b2 b3 have "extractDate ?b = Some (replaceSlashes (take 10 (drop 8 ?b)))"
    using extractDate_leftmost [of ?b 8] by blast
  ultimately show ?thesis using a1 a2 b1 b2 b3 unfolding ta tb by blast
qed

section \<open>Evaluating the regular expressions\<close>

lemma asciiLower_other:
  "\<not> (b6 \<and> \<not> b5 \<and> \<not> b7) \<Longrightarrow>
   asciiLower (Char b0 b1 b2 b3 b4 b5 b6 b7) = Char b0 b1 b2 b3 b4 b5 b6 b7"
  by (cases b5; cases b6; cases b7; simp add: asciiLower_def)

lemma asciiLower_upper:
  "asciiLower (Char b0 b1 b2 b3 b4 False True False) =
     (if (b0 \<or> b1 \<or> b2 \<or> b3 \<or> b4) \<and> \<not> (b4 \<and> b3 \<and> (b2 \<or> (b1 \<and> b0)))
      then Char b0 b1 b2 b3 b4 True True False else Char b0 b1 b2 b3 b4 False True False)"
  by (cases b0; cases b1; cases b2; cases b3; cases b4; simp add: asciiLower_def)

lemma asciiLower_Char:
  "asciiLower (Char b0 b1 b2 b3 b4 b5 b6 b7) =
     (if b6 \<and> \<not> b5 \<and> \<not> b7 \<and> (b0 \<or> b1 \<or> b2 \<or> b3 \<or> b4) \<and> \<not> (b4 \<and> b3 \<and> (b2 \<or> (b1 \<and> b0)))
      then Char b0 b1 b2 b3 b4 True b6 b7 else Char b0 b1 b2 b3 b4 b5 b6 b7)"
proof (cases "b6 \<and> \<not> b5 \<and> \<not> b7")
  case True
  then show ?thesis using asciiLower_upper [of b0 b1 b2 b3 b4] by simp
next
  case False
  then show ?thesis using asciiLower_other [of b6 b5 b7 b0 b1 b2 b3 b4] by auto
qed


section \<open>Properties of parseWhoisOutput\<close>

lemma split_not_Nil: "split sep s \<noteq> []"
  by (induction s) (auto split: list.splits)

lemma split_append: "split sep (a @ sep # b) = split sep a @ split sep b"
proof (induction a)
  case Nil
  show ?case by simp
next
  case (Cons c a)
  obtain p ps where p: "split sep a = p # ps"
    using split_not_Nil [of sep a] by (cases "split sep a") auto
  with Cons show ?case by simp
qed

lemma split_no_sep: "sep \<notin> set s \<Longrightarrow> split sep s = [s]"
  by (induction s) auto

lemma split_first:
  "split sep s =
     takeWhile (\<lambda>c. c \<noteq> sep) s #
     (if sep \<in> set s then split sep (drop 1 (dropWhile (\<lambda>c. c \<noteq> sep) s)) else [])"
proof (induction s)
  case Nil
  show ?case by simp
next
  case (Cons c s)
  show ?case
  proof (cases "c = sep")
    case True
    then show ?thesis by simp
  next
    case False
    with Cons show ?thesis by (simp split: list.splits)
  qed
qed

lemma countryValue_eq:
  "countryValue line =
     (if CHR '':'' \<in> set line
      then Some (trim (takeWhile (\<lambda>c. c \<noteq> CHR '':'') (afterFirstColon line))) else None)"
proof (cases "CHR '':'' \<in> set line")
  case True
  then have "split CHR '':'' line =
      takeWhile (\<lambda>c. c \<noteq> CHR '':'') line # split CHR '':'' (afterFirstColon line)"
    using split_first [of "CHR '':''" line] by (simp add: afterFirstColon_def)
  also have "split CHR '':'' (afterFirstColon line) =
      takeWhile (\<lambda>c. c \<noteq> CHR '':'') (afterFirstColon line) #
      (if CHR '':'' \<in> set (afterFirstColon line)
       then split CHR '':'' (drop 1 (dropWhile (\<lambda>c. c \<noteq> CHR '':'') (afterFirstColon line)))
       else [])"
    by (rule split_first)
  finally show ?thesis using True by (simp add: countryValue_def)
next
  case False
  then show ?thesis by (simp add: countryValue_def split_no_sep)
qed

lemma scanLine_country:
  "registrantCountry (scanLine v l) =
     (if isCountryLine l \<and> truthy (countryValue l) then countryValue l else registrantCountry v)"
  by (auto simp: scanLine_def Let_def)

lemma scanLine_creation:
  "creationDate (scanLine v l) =
     (if isCreationLine l \<and> truthy (extractDate l) then extractDate l else creationDate v)"
  by (auto simp: scanLine_def Let_def)

lemma scanLine_updated:
  "updatedDate (scanLine v l) =
     (if isUpdateLine l \<and> truthy (extractDate l) then extractDate l else updatedDate v)"
  by (auto simp: scanLine_def Let_def)

lemma scanLine_expiry:
  "expiryDate (scanLine v l) =
     (if isExpiryLine l \<and> truthy (extractDate l) then extractDate l else expiryDate v)"
  by (auto simp: scanLine_def Let_def)

lemma foldl_keeps:
  assumes step: "\<And>v l. fld (step v l) = (if P l then g l else fld v)"
  shows "\<forall>l\<in>set ls. \<not> P l \<Longrightarrow> fld (foldl step v ls) = fld v"
  by (induction ls arbitrary: v) (simp_all add: step)

lemma foldl_last_wins:
  assumes step: "\<And>v l. fld (step v l) = (if P l then g l else fld v)"
    and "P l" and "\<forall>l'\<in>set post. \<not> P l'"
  shows "fld (foldl step v (pre @ l # post)) = g l"
proof -
  have "fld (foldl step v (pre @ l # post)) = fld (foldl step (step (foldl step v pre) l) post)"
    by simp
  also have "\<dots> = fld (step (foldl step v pre) l)"
    using assms(3) by (rule foldl_keeps [of fld step P g, OF step])
  also have "\<dots> = g l" using assms(2) by (simp add: step)
  finally show ?thesis .
qed


lemmas parse_eval =
  parseWhoisOutput_def scanLines_def scanLine_def noFields_def splitLines_def
  trim_def isWhiteSpace_def asciiLower_Char truthy_def countryValue_def
  isCountryLine_def isCreationLine_def isUpdateLine_def isExpiryLine_def
  extractDate_def replaceSlashes_def isDigit_def toDate_def DateParse_def
  decimal_def digitVal_def MakeDay_def DayFromYear_def InLeapYear_def monthStart_def
  msPerDay_def noFallback_def

lemma scanLines_splitLines: "scanLines raw = foldl scanLine noFields (splitLines raw)"
  by (simp add: scanLines_def splitLines_def)

lemma parse_fields:
  "registrantCountry (parseWhoisOutput fallback raw) = registrantCountry (scanLines raw)"
  "creationDate (parseWhoisOutput fallback raw) = toDate fallback (creationDate (scanLines raw))"
  "updatedDate (parseWhoisOutput fallback raw) = toDate fallback (updatedDate (scanLines raw))"
  "expiryDate (parseWhoisOutput fallback raw) = toDate fallback (expiryDate (scanLines raw))"
  by (simp_all add: parseWhoisOutput_def Let_def)

text \<open>
  Claim C3, as amended.  The lines are scanned in order, each on its own, and a field ends
  with the value of the last line that carries one of the field's labels and yields a
  non-empty value: lines after it that yield none for the field, with or without a label,
  do not change it.  So \<^verbatim>\<open>Registrant Country: US\<close> followed by \<^verbatim>\<open>Country: CA\<close> gives
  the country \<^verbatim>\<open>CA\<close>.
\<close>

theorem last_value_wins:
  assumes "splitLines raw = pre @ l # post"
  shows
   "(isCountryLine l \<and> truthy (countryValue l) \<and>
     (\<forall>l'\<in>set post. \<not> (isCountryLine l' \<and> truthy (countryValue l'))) \<longrightarrow>
       registrantCountry (parseWhoisOutput fallback raw) = countryValue l) \<and>
    (isCreationLine l \<and> truthy (extractDate l) \<and>
     (\<forall>l'\<in>set post. \<not> (isCreationLine l' \<and> truthy (extractDate l'))) \<longrightarrow>
       creationDate (parseWhoisOutput fallback raw) = toDate fallback (extractDate l)) \<and>
    (isUpdateLine l \<and> truthy (extractDate l) \<and>
     (\<forall>l'\<in>set post. \<not> (isUpdateLine l' \<and> truthy (extractDate l'))) \<longrightarrow>
       updatedDate (parseWhoisOutput fallback raw) = toDate fallback (extractDate l)) \<and>
    (isExpiryLine l \<and> truthy (extractDate l) \<and>
     (\<forall>l'\<in>set post. \<not> (isExpiryLine l' \<and> truthy (extractDate l'))) \<longrightarrow>
       expiryDate (parseWhoisOutput fallback raw) = toDate fallback (extractDate l)) \<and>
    registrantCountry
      (parseWhoisOutput fallback (''Registrant Country: US'' @ [CHR 0x0A] @ ''Country: CA'')) = Some ''CA''"
proof -
  have s: "scanLines raw = foldl scanLine noFields (pre @ l # post)"
    using assms by (simp add: scanLines_splitLines)
  have c1: "isCountryLine l \<and> truthy (countryValue l) \<and>
     (\<forall>l'\<in>set post. \<not> (isCountryLine l' \<and> truthy (countryValue l'))) \<longrightarrow>
       registrantCountry (parseWhoisOutput fallback raw) = countryValue l"
    using foldl_last_wins [of registrantCountry scanLine
        "\<lambda>l. isCountryLine l \<and> truthy (countryValue l)" countryValue l post noFields pre]
    by (simp add: parse_fields s scanLine_country)
  have c2: "isCreationLine l \<and> truthy (extractDate l) \<and>
     (\<forall>l'\<in>set post. \<not> (isCreationLine l' \<and> truthy (extractDate l'))) \<longrightarrow>
       creationDate (parseWhoisOutput fallback raw) = toDate fallback (extractDate l)"
    using foldl_last_wins [of creationDate scanLine
        "\<lambda>l. isCreationLine l \<and> truthy (extractDate l)" extractDate l post noFields pre]
    by (simp add: parse_fields s scanLine_creation)
  have c3: "isUpdateLine l \<and> truthy (extractDate l) \<and>
     (\<forall>l'\<in>set post. \<not> (isUpdateLine l' \<and> truthy (extractDate l'))) \<longrightarrow>
       updatedDate (parseWhoisOutput fallback raw) = toDate fallback (extractDate l)"
    using foldl_last_wins [of updatedDate scanLine
        "\<lambda>l. isUpdateLine l \<and> truthy (extractDate l)" extractDate l post noFields pre]
    by (simp add: parse_fields s scanLine_updated)
  have c4: "isExpiryLine l \<and> truthy (extractDate l) \<and>
     (\<forall>l'\<in>set post. \<not> (isExpiryLine l' \<and> truthy (extractDate l'))) \<longrightarrow>
       expiryDate (parseWhoisOutput fallback raw) = toDate fallback (extractDate l)"
    using foldl_last_wins [of expiryDate scanLine
        "\<lambda>l. isExpiryLine l \<and> truthy (extractDate l)" extractDate l post noFields pre]
    by (simp add: parse_fields s scanLine_expiry)
  have c5: "registrantCountry
      (parseWhoisOutput fallback (''Registrant Country: US'' @ [CHR 0x0A] @ ''Country: CA'')) = Some ''CA''"
    by (simp add: parse_eval)
  from c1 c2 c3 c4 c5 show ?thesis by blast
qed


theorem last_value_wins_witness:
  "splitLines (''Updated Date: 2022-09-20'' @ [CHR 0x0A] @ ''Creation Date: 1997-09-15'' @
      [CHR 0x0A] @ ''Registry Expiry Date: 2028-09-14'' @ [CHR 0x0A] @ ''Registrant Country: US'') =
     [''Updated Date: 2022-09-20'', ''Creation Date: 1997-09-15'',
      ''Registry Expiry Date: 2028-09-14'', ''Registrant Country: US''] \<and>
   isUpdateLine ''Updated Date: 2022-09-20'' \<and> truthy (extractDate ''Updated Date: 2022-09-20'') \<and>
   isCreationLine ''Creation Date: 1997-09-15'' \<and> truthy (extractDate ''Creation Date: 1997-09-15'') \<and>
   isExpiryLine ''Registry Expiry Date: 2028-09-14'' \<and>
   truthy (extractDate ''Registry Expiry Date: 2028-09-14'') \<and>
   isCountryLine ''Registrant Country: US'' \<and> truthy (countryValue ''Registrant Country: US'') \<and>
   parseWhoisOutput noFallback (''Updated Date: 2022-09-20'' @ [CHR 0x0A] @ ''Creation Date: 1997-09-15'' @
      [CHR 0x0A] @ ''Registry Expiry Date: 2028-09-14'' @ [CHR 0x0A] @ ''Registrant Country: US'') =
     \<lparr>registrantCountry = Some ''US'', creationDate = Some 874281600000,
      updatedDate = Some 1663632000000, expiryDate = Some 1852502400000\<rparr>"
proof -
  let ?u = "''Updated Date: 2022-09-20''"
  let ?c = "''Creation Date: 1997-09-15''"
  let ?e = "''Registry Expiry Date: 2028-09-14''"
  let ?r = "''Registrant Country: US''"
  let ?raw = "?u @ [CHR 0x0A] @ ?c @ [CHR 0x0A] @ ?e @ [CHR 0x0A] @ ?r"
  have sp: "splitLines ?raw = [?u, ?c, ?e, ?r]"
    by (simp add: splitLines_def trim_def isWhiteSpace_def)
  have lab: "isUpdateLine ?u" "\<not> isUpdateLine ?c" "\<not> isUpdateLine ?e" "\<not> isUpdateLine ?r"
    "isCreationLine ?c" "\<not> isCreationLine ?e" "\<not> isCreationLine ?r"
    "isExpiryLine ?e" "\<not> isExpiryLine ?r" "isCountryLine ?r"
    by (simp_all add: isUpdateLine_def isCreationLine_def isExpiryLine_def isCountryLine_def
        asciiLower_Char)
  have val: "extractDate ?u = Some ''2022-09-20''" "extractDate ?c = Some ''1997-09-15''"
    "extractDate ?e = Some ''2028-09-14''" "countryValue ?r = Some ''US''"
    by (simp_all add: extractDate_def isDigit_def countryValue_def trim_def isWhiteSpace_def)
  have dat: "toDate noFallback (Some ''2022-09-20'') = Some 1663632000000"
    "toDate noFallback (Some ''1997-09-15'') = Some 874281600000"
    "toDate noFallback (Some ''2028-09-14'') = Some 1852502400000"
    by (simp_all add: toDate_def DateParse_def isDigit_def decimal_def digitVal_def MakeDay_def
        DayFromYear_def InLeapYear_def monthStart_def msPerDay_def)
  have f1: "updatedDate (parseWhoisOutput noFallback ?raw) = toDate noFallback (extractDate ?u)"
    using last_value_wins [of ?raw "[]" ?u "[?c, ?e, ?r]" noFallback] sp lab val
    by (simp add: truthy_def)
  have f2: "creationDate (parseWhoisOutput noFallback ?raw) = toDate noFallback (extractDate ?c)"
    using last_value_wins [of ?raw "[?u]" ?c "[?e, ?r]" noFallback] sp lab val
    by (simp add: truthy_def)
  have f3: "expiryDate (parseWhoisOutput noFallback ?raw) = toDate noFallback (extractDate ?e)"
    using last_value_wins [of ?raw "[?u, ?c]" ?e "[?r]" noFallback] sp lab val
    by (simp add: truthy_def)
  have f4: "registrantCountry (parseWhoisOutput noFallback ?raw) = countryValue ?r"
    using last_value_wins [of ?raw "[?u, ?c, ?e]" ?r "[]" noFallback] sp lab val
    by (simp add: truthy_def)
  have "parseWhoisOutput noFallback ?raw =
     \<lparr>registrantCountry = Some ''US'', creationDate = Some 874281600000,
      updatedDate = Some 1663632000000, expiryDate = Some 1852502400000\<rparr>"
    using f1 f2 f3 f4 by (simp add: val dat whois_fields.equality)
  with sp lab val show ?thesis by (simp add: truthy_def)
qed

text \<open>
  A later line that carries the label does not overwrite when it has no value: the guard
  \<^verbatim>\<open>if (parts[1])\<close> keeps the earlier country.
\<close>

theorem later_label_without_value_counterexample:
  "isCountryLine ''Country:'' \<and>
   registrantCountry (parseWhoisOutput noFallback (''Country: US'' @ [CHR 0x0A] @ ''Country:'')) = Some ''US''"
  by (simp add: parse_eval)


text \<open>
  Claim C4 says that the country is everything after the first colon.  The line is split
  at every colon and the second part is taken, so a further colon ends the value.
\<close>

theorem country_value_counterexample:
  "isCountryLine ''Country: US: extra'' \<and>
   registrantCountry (parseWhoisOutput noFallback ''Country: US: extra'') = Some ''US'' \<and>
   trim (afterFirstColon ''Country: US: extra'') = ''US: extra''"
  by (simp add: parse_eval afterFirstColon_def)

text \<open>
  Claim C4, as amended.  For every line with a country label, the value is the text between
  the first colon and the next one (or the end of the line), trimmed, and it is taken only
  if it is not empty.
\<close>

theorem country_value_between_colons:
  "isCountryLine line \<Longrightarrow>
   registrantCountry (scanLine v line) =
     (let value = trim (takeWhile (\<lambda>c. c \<noteq> CHR '':'') (afterFirstColon line))
      in if value \<noteq> [] then Some value else registrantCountry v)"
proof (cases "CHR '':'' \<in> set line")
  case True
  assume "isCountryLine line"
  with True show ?thesis
    by (simp add: scanLine_country countryValue_eq truthy_def)
next
  case False
  then have d: "dropWhile (\<lambda>c. c \<noteq> CHR '':'') line = []"
    by (auto simp: dropWhile_eq_Nil_conv)
  have "afterFirstColon line = []" unfolding afterFirstColon_def d by simp
  with False show ?thesis
    by (simp add: scanLine_country countryValue_eq truthy_def trim_def)
qed

theorem country_value_between_colons_witness:
  "isCountryLine ''Country: US: extra'' \<and>
   trim (takeWhile (\<lambda>c. c \<noteq> CHR '':'') (afterFirstColon ''Country: US: extra'')) = ''US'' \<and>
   registrantCountry (scanLine noFields ''Country: US: extra'') = Some ''US''"
proof -
  have l: "isCountryLine ''Country: US: extra''"
    by (simp add: isCountryLine_def asciiLower_Char)
  have t: "trim (takeWhile (\<lambda>c. c \<noteq> CHR '':'') (afterFirstColon ''Country: US: extra'')) = ''US''"
    by (simp add: afterFirstColon_def trim_def isWhiteSpace_def)
  from country_value_between_colons [OF l, of noFields] l t show ?thesis
    by simp
qed

text \<open>
  Claim C7.  \<open>parseWhoisOutput\<close> is a total function on strings: no operation of its body
  can throw on a string, so the model has no error result.  When no line of the text carries
  a label, the four fields of the record it returns are absent.
\<close>

theorem parse_no_labels:
  assumes "\<forall>l\<in>set (splitLines raw).
     \<not> isCountryLine l \<and> \<not> isCreationLine l \<and> \<not> isUpdateLine l \<and> \<not> isExpiryLine l"
  shows "parseWhoisOutput fallback raw =
     \<lparr>registrantCountry = None, creationDate = None, updatedDate = None, expiryDate = None\<rparr>"
proof -
  let ?v = "foldl scanLine noFields (splitLines raw)"
  have "registrantCountry ?v = registrantCountry noFields"
    by (rule foldl_keeps [of registrantCountry scanLine
          "\<lambda>l. isCountryLine l \<and> truthy (countryValue l)" countryValue])
       (use assms in \<open>simp_all add: scanLine_country\<close>)
  moreover have "creationDate ?v = creationDate noFields"
    by (rule foldl_keeps [of creationDate scanLine
          "\<lambda>l. isCreationLine l \<and> truthy (extractDate l)" extractDate])
       (use assms in \<open>simp_all add: scanLine_creation\<close>)
  moreover have "updatedDate ?v = updatedDate noFields"
    by (rule foldl_keeps [of updatedDate scanLine
          "\<lambda>l. isUpdateLine l \<and> truthy (extractDate l)" extractDate])
       (use assms in \<open>simp_all add: scanLine_updated\<close>)
  moreover have "expiryDate ?v = expiryDate noFields"
    by (rule foldl_keeps [of expiryDate scanLine
          "\<lambda>l. isExpiryLine l \<and> truthy (extractDate l)" extractDate])
       (use assms in \<open>simp_all add: scanLine_expiry\<close>)
  ultimately show ?thesis
    by (simp add: parseWhoisOutput_def scanLines_splitLines noFields_def toDate_def)
qed

theorem parse_no_labels_witness:
  "\<not> (\<exists>l\<in>set (splitLines (''No match for domain EXAMPLE.INVALID'' @ [CHR 0x0A] @ ''>>> try again'')).
        isCountryLine l \<or> isCreationLine l \<or> isUpdateLine l \<or> isExpiryLine l) \<and>
   parseWhoisOutput noFallback (''No match for domain EXAMPLE.INVALID'' @ [CHR 0x0A] @ ''>>> try again'') =
     \<lparr>registrantCountry = None, creationDate = None, updatedDate = None, expiryDate = None\<rparr>"
proof -
  let ?raw = "''No match for domain EXAMPLE.INVALID'' @ [CHR 0x0A] @ ''>>> try again''"
  have h: "\<forall>l\<in>set (splitLines ?raw).
     \<not> isCountryLine l \<and> \<not> isCreationLine l \<and> \<not> isUpdateLine l \<and> \<not> isExpiryLine l"
    by (simp add: splitLines_def trim_def isWhiteSpace_def isUpdateLine_def isCreationLine_def
        isExpiryLine_def isCountryLine_def asciiLower_Char)
  from parse_no_labels [OF h, of noFallback] h show ?thesis by blast
qed

lemma no_date_extractDate:
  assumes "\<forall>k. \<not> dateOccurs CHR ''-'' l k \<and> \<not> dateOccurs CHR ''/'' l k"
  shows "extractDate l = None"
proof -
  from assms have "matchDate CHR ''-'' l = None" "matchDate CHR ''/'' l = None"
    by (simp_all add: matchDate_None_iff)
  then show ?thesis by (simp add: extractDate_def)
qed

lemma empty_value_not_truthy:
  "trim (takeWhile (\<lambda>c. c \<noteq> CHR '':'') (afterFirstColon l)) = [] \<Longrightarrow> \<not> truthy (countryValue l)"
  by (simp add: countryValue_eq truthy_def)

text \<open>
  Claim C9.  A line without a date in one of the two layouts leaves the three date fields
  as they were, and a line whose value after the colon is empty leaves the country as it
  was, whatever labels the line carries and whatever the fields held; the same holds for
  any run of such lines.
\<close>

theorem no_value_keeps_field:
  "((\<forall>k. \<not> dateOccurs CHR ''-'' l k \<and> \<not> dateOccurs CHR ''/'' l k) \<longrightarrow>
      creationDate (scanLine v l) = creationDate v \<and>
      updatedDate (scanLine v l) = updatedDate v \<and>
      expiryDate (scanLine v l) = expiryDate v) \<and>
   (trim (takeWhile (\<lambda>c. c \<noteq> CHR '':'') (afterFirstColon l)) = [] \<longrightarrow>
      registrantCountry (scanLine v l) = registrantCountry v) \<and>
   ((\<forall>l\<in>set ls. \<forall>k. \<not> dateOccurs CHR ''-'' l k \<and> \<not> dateOccurs CHR ''/'' l k) \<longrightarrow>
      creationDate (foldl scanLine v ls) = creationDate v \<and>
      updatedDate (foldl scanLine v ls) = updatedDate v \<and>
      expiryDate (foldl scanLine v ls) = expiryDate v) \<and>
   ((\<forall>l\<in>set ls. trim (takeWhile (\<lambda>c. c \<noteq> CHR '':'') (afterFirstColon l)) = []) \<longrightarrow>
      registrantCountry (foldl scanLine v ls) = registrantCountry v)"
proof (intro conjI impI)
  assume "\<forall>k. \<not> dateOccurs CHR ''-'' l k \<and> \<not> dateOccurs CHR ''/'' l k"
  then have n: "extractDate l = None" by (rule no_date_extractDate)
  show "creationDate (scanLine v l) = creationDate v"
    by (simp add: scanLine_creation n truthy_def)
  show "updatedDate (scanLine v l) = updatedDate v"
    by (simp add: scanLine_updated n truthy_def)
  show "expiryDate (scanLine v l) = expiryDate v"
    by (simp add: scanLine_expiry n truthy_def)
next
  assume "trim (takeWhile (\<lambda>c. c \<noteq> CHR '':'') (afterFirstColon l)) = []"
  then show "registrantCountry (scanLine v l) = registrantCountry v"
    by (simp add: scanLine_country empty_value_not_truthy)
next
  assume a: "\<forall>l\<in>set ls. \<forall>k. \<not> dateOccurs CHR ''-'' l k \<and> \<not> dateOccurs CHR ''/'' l k"
  then have n: "\<forall>l\<in>set ls. \<not> truthy (extractDate l)"
    by (auto simp: no_date_extractDate truthy_def)
  show "creationDate (foldl scanLine v ls) = creationDate v"
    by (rule foldl_keeps [of creationDate scanLine
          "\<lambda>l. isCreationLine l \<and> truthy (extractDate l)" extractDate])
       (use n in \<open>simp_all add: scanLine_creation\<close>)
  show "updatedDate (foldl scanLine v ls) = updatedDate v"
    by (rule foldl_keeps [of updatedDate scanLine
          "\<lambda>l. isUpdateLine l \<and> truthy (extractDate l)" extractDate])
       (use n in \<open>simp_all add: scanLine_updated\<close>)
  show "expiryDate (foldl scanLine v ls) = expiryDate v"
    by (rule foldl_keeps [of expiryDate scanLine
          "\<lambda>l. isExpiryLine l \<and> truthy (extractDate l)" extractDate])
       (use n in \<open>simp_all add: scanLine_expiry\<close>)
next
  assume "\<forall>l\<in>set ls. trim (takeWhile (\<lambda>c. c \<noteq> CHR '':'') (afterFirstColon l)) = []"
  then have n: "\<forall>l\<in>set ls. \<not> truthy (countryValue l)"
    by (simp add: empty_value_not_truthy)
  show "registrantCountry (foldl scanLine v ls) = registrantCountry v"
    by (rule foldl_keeps [of registrantCountry scanLine
          "\<lambda>l. isCountryLine l \<and> truthy (countryValue l)" countryValue])
       (use n in \<open>simp_all add: scanLine_country\<close>)
qed


theorem no_value_keeps_field_witness:
  "isCreationLine ''Creation Date: pending'' \<and>
   (\<forall>k. \<not> dateOccurs CHR ''-'' ''Creation Date: pending'' k \<and>
        \<not> dateOccurs CHR ''/'' ''Creation Date: pending'' k) \<and>
   creationDate (scanLine (noFields\<lparr>creationDate := Some ''2020-05-01''\<rparr>) ''Creation Date: pending'') =
     Some ''2020-05-01'' \<and>
   isCountryLine ''Country:'' \<and>
   trim (takeWhile (\<lambda>c. c \<noteq> CHR '':'') (afterFirstColon ''Country:'')) = [] \<and>
   registrantCountry (scanLine (noFields\<lparr>registrantCountry := Some ''US''\<rparr>) ''Country:'') =
     Some ''US'' \<and>
   \<not> (\<exists>l\<in>set [''Creation Date: pending'', ''Country:''].
        \<exists>k. dateOccurs CHR ''-'' l k \<or> dateOccurs CHR ''/'' l k) \<and>
   creationDate (foldl scanLine (noFields\<lparr>creationDate := Some ''2020-05-01''\<rparr>)
      [''Creation Date: pending'', ''Country:'']) = Some ''2020-05-01'' \<and>
   parseWhoisOutput noFallback (''Creation Date: 2020-05-01'' @ [CHR 0x0A] @ ''Country: US'' @ [CHR 0x0A] @
      ''Creation Date: pending'' @ [CHR 0x0A] @ ''Country:'') =
     \<lparr>registrantCountry = Some ''US'', creationDate = Some 1588291200000,
      updatedDate = None, expiryDate = None\<rparr>"
proof -
  let ?p = "''Creation Date: pending''"
  let ?c = "''Country:''"
  have lab: "isCreationLine ?p" "isCountryLine ?c"
    by (simp_all add: isCreationLine_def isCountryLine_def asciiLower_Char)
  have "\<forall>k. \<not> dateOccurs CHR ''-'' ?p k" "\<forall>k. \<not> dateOccurs CHR ''/'' ?p k"
    by (rule matchDate_eval_None, simp add: isDigit_def)+
  then have np: "\<forall>k. \<not> dateOccurs CHR ''-'' ?p k \<and> \<not> dateOccurs CHR ''/'' ?p k"
    by simp
  have "\<forall>k. \<not> dateOccurs CHR ''-'' ?c k" "\<forall>k. \<not> dateOccurs CHR ''/'' ?c k"
    by (rule matchDate_eval_None, simp add: isDigit_def)+
  then have nc: "\<forall>k. \<not> dateOccurs CHR ''-'' ?c k \<and> \<not> dateOccurs CHR ''/'' ?c k"
    by simp
  from np nc have nb: "\<forall>l\<in>set [?p, ?c].
      \<forall>k. \<not> dateOccurs CHR ''-'' l k \<and> \<not> dateOccurs CHR ''/'' l k"
    by simp
  have e: "trim (takeWhile (\<lambda>c. c \<noteq> CHR '':'') (afterFirstColon ?c)) = []"
    by (simp add: afterFirstColon_def trim_def)
  have r1: "creationDate (scanLine (noFields\<lparr>creationDate := Some ''2020-05-01''\<rparr>) ?p) =
      Some ''2020-05-01''"
    using no_value_keeps_field [of ?p "noFields\<lparr>creationDate := Some ''2020-05-01''\<rparr>" "[]"] np
    by simp
  have r2: "registrantCountry (scanLine (noFields\<lparr>registrantCountry := Some ''US''\<rparr>) ?c) =
      Some ''US''"
    using no_value_keeps_field [of ?c "noFields\<lparr>registrantCountry := Some ''US''\<rparr>" "[]"] e
    by simp
  have r3: "creationDate (foldl scanLine (noFields\<lparr>creationDate := Some ''2020-05-01''\<rparr>)
      [?p, ?c]) = Some ''2020-05-01''"
    using no_value_keeps_field [of ?p "noFields\<lparr>creationDate := Some ''2020-05-01''\<rparr>" "[?p, ?c]"]
      nb by simp
  have r4: "parseWhoisOutput noFallback (''Creation Date: 2020-05-01'' @ [CHR 0x0A] @ ''Country: US'' @
      [CHR 0x0A] @ ?p @ [CHR 0x0A] @ ?c) =
     \<lparr>registrantCountry = Some ''US'', creationDate = Some 1588291200000,
      updatedDate = None, expiryDate = None\<rparr>"
    by (simp add: parse_eval)
  from lab np e r1 r2 r3 r4 nb show ?thesis by simp
qed

section \<open>Properties of toDate\<close>

text \<open>
  Claim C6 says that an extracted date string that is not a date of the calendar converts
  to nothing, so that the field is absent.  \<^verbatim>\<open>toDate\<close> is documented as validating the
  conversion, and its only check is \<^verbatim>\<open>isNaN\<close> on what the platform returns.  At
  \<^verbatim>\<open>2021-02-30\<close> the check does not fire: the record gets a creation date, the one it
  gets for \<^verbatim>\<open>2021-03-02\<close>, whatever the platform's fallback reader does.
\<close>

theorem impossible_day_converted:
  "extractDate ''Creation Date: 2021-02-30'' = Some ''2021-02-30'' \<and>
   creationDate (parseWhoisOutput fallback ''Creation Date: 2021-02-30'') = Some 1614643200000 \<and>
   creationDate (parseWhoisOutput fallback ''Creation Date: 2021-03-02'') = Some 1614643200000"
  by (simp add: parse_eval)

section \<open>Properties of getCleanHostname\<close>

lemmas url_eval =
  getCleanHostname_def trim_def isWhiteSpace_def hasScheme_def asciiLower_Char
  schemeEnd_def isAsciiAlpha_def
  urlHostname_def parserInput_def isC0ControlOrSpace_def isTabOrNewline_def isAuthorityEnd_def
  hostParse_def domainToASCII_def isPlainDomain_def isForbiddenDomainCodePoint_def
  endsInNumber_def ipv4Parts_def ipv4Number_def isDigit_def isHexDigit_def portOk_def
  toLowerCase_def decimal_def digitVal_def


text \<open>
  Claim C5 says that the result never begins with \<^verbatim>\<open>www.\<close>.  One prefix is removed,
  once.
\<close>

theorem repeated_www_counterexample:
  "getCleanHostname noExt ''www.www.example.com'' = Some ''www.example.com''"
  by (simp add: url_eval)

lemma testAtStart_Cons:
  "testAtStart (p # ps) s \<longleftrightarrow> (\<exists>c cs. s = c # cs \<and> asciiLower c = asciiLower p \<and> testAtStart ps cs)"
  by (cases s) auto

lemma asciiLower_slash: "asciiLower c = CHR ''/'' \<Longrightarrow> c = CHR ''/''"
  by (cases c) (auto simp: asciiLower_Char split: if_splits)

lemma asciiLower_slash_iff: "asciiLower c = CHR ''/'' \<longleftrightarrow> c = CHR ''/''"
  using asciiLower_slash by (auto simp: asciiLower_Char)

lemma asciiLower_bracket: "asciiLower CHR ''['' = CHR ''[''"
  by (simp add: asciiLower_Char)

lemma hasScheme_slash: "hasScheme h \<Longrightarrow> CHR ''/'' \<in> set h \<and> (\<forall>a. h \<noteq> CHR ''['' # a)"
proof -
  assume "hasScheme h"
  then obtain c1 c2 c3 c4 c5 c6 c7 rest where
    h: "h = c1 # c2 # c3 # c4 # c5 # c6 # c7 # rest" and
    c: "asciiLower c1 = CHR ''h''" "asciiLower c6 = CHR ''/'' \<or> asciiLower c7 = CHR ''/''"
    unfolding hasScheme_def testAtStart_Cons by (auto simp: asciiLower_Char)
  from c(2) have "c6 = CHR ''/'' \<or> c7 = CHR ''/''" using asciiLower_slash by blast
  moreover from c(1) have "c1 \<noteq> CHR ''[''" by (auto simp: asciiLower_Char)
  ultimately show ?thesis unfolding h by auto
qed

lemma asciiLower_not_upper: "asciiLower c \<notin> set ''ABCDEFGHIJKLMNOPQRSTUVWXYZ''"
proof (cases c)
  case (Char b0 b1 b2 b3 b4 b5 b6 b7)
  show ?thesis
  proof (cases "b6 \<and> \<not> b5 \<and> \<not> b7")
    case True
    then show ?thesis unfolding Char
      by (cases b0; cases b1; cases b2; cases b3; cases b4; simp add: asciiLower_Char)
  next
    case False
    then show ?thesis unfolding Char by (auto simp: asciiLower_Char)
  qed
qed

lemma isLowerCase_toLowerCase: "isLowerCase (toLowerCase s)"
  unfolding isLowerCase_def toLowerCase_def list_all_iff
  using asciiLower_not_upper by auto

lemma isLowerCase_drop: "isLowerCase s \<Longrightarrow> isLowerCase (drop n s)"
  unfolding isLowerCase_def list_all_iff by (auto dest: in_set_dropD)

lemma digitChar_digit: "digitChar n \<in> set ''0123456789''"
  unfolding digitChar_def by (rule nth_mem) simp

lemma digitChar_not_slash: "CHR ''/'' \<noteq> digitChar n"
  using digitChar_digit [of n] by auto

lemma showByte_no_slash: "CHR ''/'' \<notin> set (showByte n)"
  by (simp add: showByte_def digitChar_not_slash)

lemma ipv4Serialize_no_slash: "CHR ''/'' \<notin> set (ipv4Serialize a)"
  by (simp add: ipv4Serialize_def showByte_no_slash)

lemma forbidden_slash: "isForbiddenDomainCodePoint CHR ''/''"
  by (simp add: isForbiddenDomainCodePoint_def)

lemma hostParse_no_slash:
  assumes "hostParse ext inp = Some h"
  shows "(\<exists>a. h = CHR ''['' # a) \<or> CHR ''/'' \<notin> set h"
proof (cases "take 1 inp = ''[''")
  case True
  with assms show ?thesis
    by (auto simp: hostParse_def split: if_splits option.splits)
next
  case False
  with assms obtain d where d: "domainToASCII ext (percentDecode inp) = Some d"
    "\<not> list_ex isForbiddenDomainCodePoint d"
    "h = d \<or> (\<exists>a. h = ipv4Serialize a)"
    by (auto simp: hostParse_def split: if_splits option.splits)
  from d(2) have "CHR ''/'' \<notin> set d"
    using forbidden_slash by (auto simp: list_ex_iff)
  with d(3) show ?thesis using ipv4Serialize_no_slash by auto
qed

lemma urlHostname_hostParse:
  assumes "urlHostname ext s = Some h"
  shows "\<exists>inp. hostParse ext inp = Some h"
proof (cases "schemeEnd (parserInput s)")
  case None
  with assms show ?thesis by (simp add: urlHostname_def)
next
  case (Some p)
  obtain sch rest where p: "p = (sch, rest)" by (cases p)
  let ?a = "takeWhile (\<lambda>c. \<not> isAuthorityEnd c)
              (dropWhile (\<lambda>c. c = CHR ''/'' \<or> c = CHR 0x5C) rest)"
  obtain hb port where hs: "hostState False (afterLastAt ?a) = (hb, port)"
    by (cases "hostState False (afterLastAt ?a)")
  from assms Some p hs have "hostParse ext hb = Some h"
    by (simp add: urlHostname_def Let_def split: if_splits option.splits)
  then show ?thesis ..
qed

lemma urlHostname_no_slash:
  assumes "urlHostname ext s = Some h"
  shows "(\<exists>a. h = CHR ''['' # a) \<or> CHR ''/'' \<notin> set h"
  using urlHostname_hostParse [OF assms] hostParse_no_slash by blast

lemma asciiLower_cases:
  "(c \<notin> set ''ABCDEFGHIJKLMNOPQRSTUVWXYZ'' \<and> asciiLower c = c) \<or>
   (c \<in> set ''ABCDEFGHIJKLMNOPQRSTUVWXYZ'' \<and> asciiLower c \<in> set ''abcdefghijklmnopqrstuvwxyz'')"
proof (cases "map_of (zip ''ABCDEFGHIJKLMNOPQRSTUVWXYZ'' ''abcdefghijklmnopqrstuvwxyz'') c")
  case None
  then have n: "c \<notin> fst ` set (zip ''ABCDEFGHIJKLMNOPQRSTUVWXYZ'' ''abcdefghijklmnopqrstuvwxyz'')"
    by (rule iffD1 [OF map_of_eq_None_iff])
  have "c \<notin> set ''ABCDEFGHIJKLMNOPQRSTUVWXYZ''"
  proof
    assume "c \<in> set ''ABCDEFGHIJKLMNOPQRSTUVWXYZ''"
    moreover have "length ''ABCDEFGHIJKLMNOPQRSTUVWXYZ'' = length ''abcdefghijklmnopqrstuvwxyz''"
      by simp
    ultimately obtain l where
      "(c, l) \<in> set (zip ''ABCDEFGHIJKLMNOPQRSTUVWXYZ'' ''abcdefghijklmnopqrstuvwxyz'')"
      by (metis in_set_impl_in_set_zip1)
    then have "fst (c, l) \<in> fst ` set (zip ''ABCDEFGHIJKLMNOPQRSTUVWXYZ'' ''abcdefghijklmnopqrstuvwxyz'')"
      by (rule imageI)
    with n show False by simp
  qed
  moreover from None have "asciiLower c = c" by (simp only: asciiLower_def option.case)
  ultimately show ?thesis by blast
next
  case (Some l)
  then have "(c, l) \<in> set (zip ''ABCDEFGHIJKLMNOPQRSTUVWXYZ'' ''abcdefghijklmnopqrstuvwxyz'')"
    by (rule map_of_SomeD)
  then have "c \<in> set ''ABCDEFGHIJKLMNOPQRSTUVWXYZ''" "l \<in> set ''abcdefghijklmnopqrstuvwxyz''"
    by (rule set_zip_leftD, rule set_zip_rightD)
  moreover from Some have "asciiLower c = l" by (simp only: asciiLower_def option.case)
  ultimately show ?thesis by blast
qed

lemma asciiLower_bracket_iff: "asciiLower c = CHR ''['' \<longleftrightarrow> c = CHR ''[''"
proof
  assume "asciiLower c = CHR ''[''"
  moreover have "CHR ''['' \<notin> set ''abcdefghijklmnopqrstuvwxyz''" by simp
  ultimately show "c = CHR ''[''" using asciiLower_cases [of c] by metis
next
  assume "c = CHR ''[''"
  then show "asciiLower c = CHR ''[''" by (simp add: asciiLower_Char)
qed

lemma toLowerCase_bracket:
  "(\<exists>a. toLowerCase h = CHR ''['' # a) \<longleftrightarrow> (\<exists>a. h = CHR ''['' # a)"
  by (cases h) (simp_all add: toLowerCase_def asciiLower_bracket_iff)

lemma toLowerCase_slash: "CHR ''/'' \<in> set (toLowerCase h) \<longleftrightarrow> CHR ''/'' \<in> set h"
proof -
  have "CHR ''/'' \<in> set (toLowerCase h) \<longleftrightarrow> (\<exists>c\<in>set h. asciiLower c = CHR ''/'')"
    unfolding toLowerCase_def set_map image_iff by (simp only: eq_commute)
  also have "\<dots> \<longleftrightarrow> (\<exists>c\<in>set h. c = CHR ''/'')"
    by (simp only: asciiLower_slash_iff)
  also have "\<dots> \<longleftrightarrow> CHR ''/'' \<in> set h" by blast
  finally show ?thesis .
qed

lemma www_www:
  "take 8 l = ''www.www.'' \<longleftrightarrow> take 4 l = ''www.'' \<and> take 4 (drop 4 l) = ''www.''"
proof
  assume a: "take 8 l = ''www.www.''"
  have "take 4 l = take 4 (take 8 l)" by simp
  also have "\<dots> = ''www.''" unfolding a by simp
  finally have 1: "take 4 l = ''www.''" .
  have "take 4 (drop 4 l) = drop 4 (take 8 l)" by (simp add: drop_take)
  also have "\<dots> = ''www.''" unfolding a by simp
  finally show "take 4 l = ''www.'' \<and> take 4 (drop 4 l) = ''www.''" using 1 by simp
next
  assume a: "take 4 l = ''www.'' \<and> take 4 (drop 4 l) = ''www.''"
  have "take 8 l = take 4 l @ take 4 (drop 4 l)"
    using take_add [of 4 4 l] by simp
  with a show "take 8 l = ''www.www.''" by simp
qed

text \<open>
  Claim C5, as amended.  Every host name that \<open>getCleanHostname\<close> returns is in lower
  case, has no scheme prefix, and is the host of the URL in lower case without one leading
  \<^verbatim>\<open>www.\<close>, if it had one: it begins with \<^verbatim>\<open>www.\<close> exactly when the host began with
  \<^verbatim>\<open>www.www.\<close>.
\<close>

theorem getCleanHostname_result:
  assumes "getCleanHostname ext inp = Some h"
  shows "isLowerCase h \<and> \<not> hasScheme h \<and>
    (\<exists>host. urlHostname ext (if hasScheme (trim inp) then trim inp else ''http://'' @ trim inp) =
        Some host \<and>
      h = (if take 4 (toLowerCase host) = ''www.'' then drop 4 (toLowerCase host)
           else toLowerCase host) \<and>
      (take 4 h = ''www.'' \<longleftrightarrow> take 8 (toLowerCase host) = ''www.www.''))"
proof -
  let ?t = "if hasScheme (trim inp) then trim inp else ''http://'' @ trim inp"
  from assms have ne: "inp \<noteq> []"
    by (auto simp: getCleanHostname_def)
  from assms ne obtain host where host: "urlHostname ext ?t = Some host"
    by (cases "urlHostname ext ?t") (simp_all add: getCleanHostname_def Let_def)
  from assms ne host have h: "h = (if take 4 (toLowerCase host) = ''www.''
      then drop 4 (toLowerCase host) else toLowerCase host)"
    by (simp add: getCleanHostname_def Let_def split: if_splits)
  let ?l = "toLowerCase host"
  have low: "isLowerCase h"
    unfolding h by (simp add: isLowerCase_toLowerCase isLowerCase_drop)
  have "(\<exists>a. ?l = CHR ''['' # a) \<or> CHR ''/'' \<notin> set ?l"
    using urlHostname_no_slash [OF host]
    unfolding toLowerCase_bracket toLowerCase_slash .
  then have "(\<exists>a. h = CHR ''['' # a) \<or> CHR ''/'' \<notin> set h"
  proof
    assume "\<exists>a. ?l = CHR ''['' # a"
    then obtain a where b: "?l = CHR ''['' # a" by blast
    then have "take 4 ?l \<noteq> ''www.''" by (cases a) auto
    with b show ?thesis by (simp add: h)
  next
    assume "CHR ''/'' \<notin> set ?l"
    then show ?thesis unfolding h by (auto dest: in_set_dropD)
  qed
  then have sch: "\<not> hasScheme h" using hasScheme_slash [of h] by blast
  have w: "take 4 h = ''www.'' \<longleftrightarrow> take 8 ?l = ''www.www.''"
  proof (cases "take 4 ?l = ''www.''")
    case True
    then show ?thesis unfolding h www_www by simp
  next
    case False
    then show ?thesis unfolding h www_www by simp
  qed
  from host h low sch w show ?thesis by blast
qed

theorem getCleanHostname_result_witness:
  "getCleanHostname noExt ''WWW.www.Example.com/whois'' = Some ''www.example.com'' \<and>
   isLowerCase ''www.example.com'' \<and> \<not> hasScheme ''www.example.com'' \<and>
   (\<exists>host. urlHostname noExt ''http://WWW.www.Example.com/whois'' = Some host \<and>
      take 8 (toLowerCase host) = ''www.www.'')"
proof -
  have g: "getCleanHostname noExt ''WWW.www.Example.com/whois'' = Some ''www.example.com''"
    by (simp add: url_eval)
  have t: "(if hasScheme (trim ''WWW.www.Example.com/whois'') then trim ''WWW.www.Example.com/whois''
       else ''http://'' @ trim ''WWW.www.Example.com/whois'') = ''http://WWW.www.Example.com/whois''"
    by (simp add: trim_def isWhiteSpace_def hasScheme_def asciiLower_Char)
  have w: "take 4 ''www.example.com'' = ''www.''" by simp
  from getCleanHostname_result [OF g] show ?thesis unfolding t using g w by blast
qed

section \<open>Properties of the query loop\<close>

lemma urlHostname_no_host: "urlHostname ext ''http://'' = None"
  by (simp add: urlHostname_def parserInput_def isC0ControlOrSpace_def isTabOrNewline_def
      asciiLower_Char isAuthorityEnd_def schemeEnd_def isAsciiAlpha_def)

lemma getCleanHostname_blank: "trim s = [] \<Longrightarrow> getCleanHostname ext s = None"
  by (simp add: getCleanHostname_def hasScheme_def urlHostname_no_host)

lemma iteration_state:
  "fst (iteration ext fallback whois s) = (if trim s = [] then Done else AwaitingInput)"
  by (simp add: iteration_def Let_def split: option.splits)

lemma mainLoop_Done:
  "fst (mainLoop ext fallback whois answers) = Done \<longleftrightarrow> (\<exists>a\<in>set answers. trim a = [])"
proof (induction answers)
  case Nil
  show ?case by simp
next
  case (Cons a answers)
  obtain st out where i: "iteration ext fallback whois a = (st, out)" by (cases "iteration ext fallback whois a")
  then have st: "st = (if trim a = [] then Done else AwaitingInput)"
    using iteration_state [of ext fallback whois a] by simp
  show ?case
  proof (cases "trim a = []")
    case True
    with i st show ?thesis by simp
  next
    case False
    obtain st' out' where m: "mainLoop ext fallback whois answers = (st', out')"
      by (cases "mainLoop ext fallback whois answers")
    with i st False Cons.IH show ?thesis by simp
  qed
qed

text \<open>
  Claim C8.  On an input whose trimmed form is empty, \<open>getCleanHostname\<close> returns
  nothing and the turn of the loop ends in \<open>Done\<close>; on every other input the turn ends
  in \<open>AwaitingInput\<close>, whatever the normalisation and the lookup give.  So the loop is
  \<open>Done\<close> after a sequence of inputs exactly when one of them trims to the empty string.
\<close>

theorem empty_input_ends_loop:
  "(trim s = [] \<longrightarrow> getCleanHostname ext s = None \<and> fst (iteration ext fallback whois s) = Done) \<and>
   (trim s \<noteq> [] \<longrightarrow> fst (iteration ext fallback whois s) = AwaitingInput) \<and>
   (fst (mainLoop ext fallback whois answers) = Done \<longleftrightarrow> (\<exists>a\<in>set answers. trim a = []))"
  by (simp add: getCleanHostname_blank iteration_state mainLoop_Done)

theorem empty_input_ends_loop_witness:
  "trim [CHR '' '', CHR 0x09] = [] \<and>
   getCleanHostname noExt [CHR '' '', CHR 0x09] = None \<and>
   fst (iteration noExt noFallback (\<lambda>h. Stdout ''Country: AR'') [CHR '' '', CHR 0x09]) = Done \<and>
   trim ''example.com'' \<noteq> [] \<and>
   fst (iteration noExt noFallback (\<lambda>h. Stdout ''Country: AR'') ''example.com'') = AwaitingInput \<and>
   fst (iteration noExt noFallback (\<lambda>h. ExecError ''whois: not found'') ''example.com'') = AwaitingInput \<and>
   fst (iteration noExt noFallback (\<lambda>h. Stdout ''Country: AR'') ''not a url'') = AwaitingInput \<and>
   fst (mainLoop noExt noFallback (\<lambda>h. Stdout ''Country: AR'') [''example.com'', ''not a url'', '' '', ''x.org'']) = Done"
proof -
  have t1: "trim [CHR '' '', CHR 0x09] = []" and t2: "trim ''example.com'' \<noteq> []"
    and t3: "trim ''not a url'' \<noteq> []" and t4: "trim '' '' = []"
    by (simp_all add: trim_def isWhiteSpace_def)
  show ?thesis
    using t1 t2 t3 t4
      empty_input_ends_loop [of "[CHR '' '', CHR 0x09]" noExt noFallback "\<lambda>h. Stdout ''Country: AR''" "[]"]
      empty_input_ends_loop [of "''example.com''" noExt noFallback "\<lambda>h. Stdout ''Country: AR''"
        "[''example.com'', ''not a url'', '' '', ''x.org'']"]
      empty_input_ends_loop [of "''example.com''" noExt noFallback "\<lambda>h. ExecError ''whois: not found''" "[]"]
      empty_input_ends_loop [of "''not a url''" noExt noFallback "\<lambda>h. Stdout ''Country: AR''" "[]"]
    by simp
qed

end
